theory Spec2Isabelle
  imports Complex_Main "HOL-Library.Word" "HOL-Library.Sublist"
begin

text \<open>
  A model of \<open>server.js\<close>, the gateway between a question form, a question-answering
  service, an ingestion service, a vector store and a PostgreSQL query log. The file
  holds two revisions of the server; the model follows the later one, which has the
  query log, the grouped document catalog and \<open>maxPages = 20\<close>.
\<close>

section \<open>JavaScript strings and JSON values\<close>

text \<open>
  A JavaScript string is a sequence of UTF-16 code units, and \<open>length\<close>, \<open>startsWith\<close>,
  \<open>replace\<close>, \<open>split\<close> and \<open>trim\<close> all work on code units. A string is modelled as a list
  of 16-bit words; \<open>str\<close> turns an Isabelle literal into such a list.
\<close>

type_synonym jsstring = "16 word list"

definition str :: "string \<Rightarrow> jsstring" where
  "str s = map (\<lambda>c. of_char c) s"

text \<open>
  \<open>String.prototype.trim\<close> removes ECMAScript white space and line terminators from both
  ends: TAB, LF, VT, FF, CR, SPACE, NBSP, the Unicode space separators and the byte order mark.
\<close>

definition is_ws :: "16 word \<Rightarrow> bool" where
  "is_ws c =
     (c \<in> {0x9, 0xA, 0xB, 0xC, 0xD, 0x20, 0xA0, 0x1680, 0x2028, 0x2029, 0x202F, 0x205F,
            0x3000, 0xFEFF}
      \<or> (0x2000 \<le> c \<and> c \<le> 0x200A))"

definition trim :: "jsstring \<Rightarrow> jsstring" where
  "trim s = rev (dropWhile is_ws (rev (dropWhile is_ws s)))"

text \<open>\<open>s.startsWith(p)\<close>.\<close>

definition startsWith :: "jsstring \<Rightarrow> jsstring \<Rightarrow> bool" where
  "startsWith s p = prefix p s"

text \<open>
  \<open>s.replace(pat, rep)\<close> with a string pattern replaces the first occurrence of \<open>pat\<close>
  only. (The replacement strings of the program contain no \<open>$\<close> pattern.)
\<close>

fun replace_js :: "jsstring \<Rightarrow> jsstring \<Rightarrow> jsstring \<Rightarrow> jsstring" where
  "replace_js [] pat rep = (if pat = [] then rep else [])"
| "replace_js (c # cs) pat rep =
     (if prefix pat (c # cs) then rep @ drop (length pat) (c # cs)
      else c # replace_js cs pat rep)"

text \<open>
  \<open>s.split(sep)\<close> with a string separator and no limit: the pieces between the
  occurrences of \<open>sep\<close>, found from left to right; the empty separator splits into code
  units. \<open>split_from sep cur s\<close> scans \<open>s\<close> with the current piece \<open>cur\<close> kept reversed.
\<close>

function split_from :: "jsstring \<Rightarrow> jsstring \<Rightarrow> jsstring \<Rightarrow> jsstring list" where
  "split_from sep cur [] = [rev cur]"
| "split_from sep cur (c # cs) =
     (if sep \<noteq> [] \<and> prefix sep (c # cs)
      then rev cur # split_from sep [] (drop (length sep) (c # cs))
      else split_from sep (c # cur) cs)"
  by pat_completeness auto
termination
  by (relation "measure (\<lambda>(sep, cur, s). length s)") (auto simp: neq_Nil_conv)

definition split_js :: "jsstring \<Rightarrow> jsstring \<Rightarrow> jsstring list" where
  "split_js s sep = (if sep = [] then map (\<lambda>c. [c]) s else split_from sep [] s)"

text \<open>\<open>xs[0]\<close> on an array: \<open>undefined\<close> (here \<open>None\<close>) when the array is empty.\<close>

definition first_elem :: "'a list \<Rightarrow> 'a option" where
  "first_elem xs = (case xs of [] \<Rightarrow> None | x # _ \<Rightarrow> Some x)"

text \<open>
  A value that came out of \<open>JSON.parse\<close> (a request body field, an upstream result), or
  \<open>undefined\<close> for an absent property. JSON numbers are finite, so there is no NaN.
\<close>

datatype jsval =
    JUndefined
  | JNull
  | JBool bool
  | JNum rat
  | JStr jsstring
  | JArr "jsval list"
  | JObj "(jsstring \<times> jsval) list"

fun truthy :: "jsval \<Rightarrow> bool" where
  "truthy JUndefined = False"
| "truthy JNull = False"
| "truthy (JBool b) = b"
| "truthy (JNum n) = (n \<noteq> 0)"
| "truthy (JStr s) = (s \<noteq> [])"
| "truthy (JArr xs) = True"
| "truthy (JObj kvs) = True"

text \<open>\<open>a || b\<close> on values.\<close>

definition js_or :: "jsval \<Rightarrow> jsval \<Rightarrow> jsval" where
  "js_or a b = (if truthy a then a else b)"

text \<open>
  \<open>x || d\<close> where \<open>x\<close> is a string-typed property that may be absent or null (\<open>None\<close>)
  and \<open>d\<close> is a string: the empty string is falsy as well.
\<close>

definition or_str :: "jsstring option \<Rightarrow> jsstring \<Rightarrow> jsstring" where
  "or_str x d = (case x of None \<Rightarrow> d | Some s \<Rightarrow> if s = [] then d else s)"

text \<open>\<open>x || d\<close> where \<open>x\<close> is an array-typed property: every array is truthy.\<close>

definition or_arr :: "'a list option \<Rightarrow> 'a list \<Rightarrow> 'a list" where
  "or_arr x d = (case x of None \<Rightarrow> d | Some xs \<Rightarrow> xs)"

section \<open>The document catalog: repo derivation\<close>

text \<open>
  The payload of a vector-store point, with the fields the catalog reads. The field types
  are those of the point data model: strings and string arrays, each possibly absent or
  null (\<open>None\<close>).
\<close>

record payload =
  title :: "jsstring option"
  source_url :: "jsstring option"
  repo :: "jsstring option"
  document_type :: "jsstring option"
  jurisdictions :: "jsstring list option"
  topics :: "jsstring list option"

text \<open>
  The body of the grouping loop of \<open>GET /api/documents\<close> that computes \<open>repo\<close>:
  \<^verbatim>\<open>
  const sourceUrl = p.source_url || "";
  let repo = "ungrouped";
  if (sourceUrl.startsWith("form://")) {
    const parts = sourceUrl.replace("form://", "").split("/");
    repo = parts[0] || "general";
  } else if (sourceUrl.startsWith("gdrive://")) {
    repo = "google-drive";
  } else if (p.repo) {
    repo = p.repo;
  }
  \<close>
\<close>

definition derive_repo :: "payload \<Rightarrow> jsstring" where
  "derive_repo p =
     (let sourceUrl = or_str (source_url p) []
      in if startsWith sourceUrl (str ''form://'') then
           (let parts = split_js (replace_js sourceUrl (str ''form://'') []) (str ''/'')
            in or_str (first_elem parts) (str ''general''))
         else if startsWith sourceUrl (str ''gdrive://'') then str ''google-drive''
         else (case repo p of
                 None \<Rightarrow> str ''ungrouped''
               | Some r \<Rightarrow> if r \<noteq> [] then r else str ''ungrouped''))"

text \<open>
  The precedence in the words of the specification: the first path segment after the form
  marker (the code units before the first slash), \<open>general\<close> when it is empty; else the
  drive marker; else a truthy \<open>repo\<close> field; else \<open>ungrouped\<close>.
\<close>

definition first_segment :: "jsstring \<Rightarrow> jsstring" where
  "first_segment rest = takeWhile (\<lambda>c. c \<noteq> 0x2F) rest"

definition repo_spec :: "payload \<Rightarrow> jsstring" where
  "repo_spec p =
     (case source_url p of
        Some u \<Rightarrow>
          if prefix (str ''form://'') u then
            (let seg = first_segment (drop (length (str ''form://'')) u)
             in if seg = [] then str ''general'' else seg)
          else if prefix (str ''gdrive://'') u then str ''google-drive''
          else (case repo p of
                  Some r \<Rightarrow> if r = [] then str ''ungrouped'' else r
                | None \<Rightarrow> str ''ungrouped'')
      | None \<Rightarrow>
          (case repo p of
             Some r \<Rightarrow> if r = [] then str ''ungrouped'' else r
           | None \<Rightarrow> str ''ungrouped''))"

section \<open>Errors and responses\<close>

text \<open>
  What a rejected promise or a thrown exception carries. The handlers only ever report
  \<open>err.message\<close>; the constructors name the fault instead.
\<close>

datatype error =
    TypeError              \<comment> \<open>property access on \<open>undefined\<close>/\<open>null\<close>, or calling a non-function\<close>
  | InvalidResponse        \<comment> \<open>\<open>proxyRequest\<close>: the upstream body is not JSON\<close>
  | TimedOut               \<comment> \<open>\<open>proxyRequest\<close>: the timeout fired\<close>
  | TransportFault         \<comment> \<open>\<open>proxyRequest\<close>: the request emitted \<open>error\<close>\<close>
  | ConnectFailed          \<comment> \<open>\<open>db.connect()\<close> rejected\<close>
  | SqlSyntaxError         \<comment> \<open>the server refused to parse the statement\<close>
  | BackendFailure         \<comment> \<open>the server failed while running the statement\<close>

section \<open>The document catalog: paging\<close>

record point =
  payload :: "payload option"

text \<open>The body of one scroll request; \<open>offset\<close> is only set when the cursor is truthy.\<close>

record scroll_request =
  limit :: nat
  with_payload :: bool
  with_vector :: bool
  offset :: "jsval option"

text \<open>
  A scroll response carries \<open>points\<close> and \<open>next_page_offset\<close>, bare or under \<open>result\<close>.
  An absent or null \<open>points\<close> is \<open>None\<close>; an absent cursor is \<open>JUndefined\<close>.
\<close>

record scroll_body =
  points :: "point list option"
  next_page_offset :: jsval

record scroll_result = scroll_body +
  result :: "scroll_body option"

text \<open>
  The vector store as the handler sees it: the outcome of the \<open>k\<close>-th \<open>proxyRequest\<close> of
  one scan. \<open>Inl\<close> is a rejected promise, \<open>Inr None\<close> a response that normalises to
  \<open>undefined\<close> or \<open>null\<close>, on which \<open>result.points\<close> throws.
\<close>

type_synonym scroll_upstream = "nat \<Rightarrow> scroll_request \<Rightarrow> error + scroll_result option"

definition maxPages :: nat where
  "maxPages = 20"

text \<open>\<open>result.points || result.result?.points || []\<close>\<close>

definition page_points :: "scroll_result \<Rightarrow> point list" where
  "page_points r =
     (case points r of
        Some ps \<Rightarrow> ps
      | None \<Rightarrow>
          (case result r of
             None \<Rightarrow> []
           | Some b \<Rightarrow> or_arr (points b) []))"

text \<open>\<open>result.next_page_offset || result.result?.next_page_offset\<close>\<close>

definition page_next :: "scroll_result \<Rightarrow> jsval" where
  "page_next r =
     js_or (next_page_offset r)
       (case result r of None \<Rightarrow> JUndefined | Some b \<Rightarrow> next_page_offset b)"

definition scroll_payload :: "jsval \<Rightarrow> scroll_request" where
  "scroll_payload off =
     \<lparr>limit = 100, with_payload = True, with_vector = False,
      offset = (if truthy off then Some off else None)\<rparr>"

text \<open>How the paging loop ended: by its \<open>break\<close>, or because \<open>page\<close> reached \<open>maxPages\<close>.\<close>

datatype loop_exit = Break | Ceiling

text \<open>
  The paging loop
  \<^verbatim>\<open>
  for (let page = 0; page < maxPages; page++) {
    const payload = { limit: 100, with_payload: true, with_vector: false };
    if (offset) payload.offset = offset;
    const result = await proxyRequest(..., payload, 15000);
    const points = result.points || result.result?.points || [];
    allPoints.push(...points);
    const nextOffset = result.next_page_offset || result.result?.next_page_offset;
    if (!nextOffset || points.length === 0) break;
    offset = nextOffset;
  }
  \<close>
  from the state \<open>(page, offset, allPoints)\<close>. It returns the requests it sent, in order,
  and either the error that left the loop or the collected points with the way the loop
  ended.
\<close>

function scroll_pages ::
  "scroll_upstream \<Rightarrow> nat \<Rightarrow> jsval \<Rightarrow> point list
     \<Rightarrow> scroll_request list \<times> (error + point list \<times> loop_exit)" where
  "scroll_pages up page off allPoints =
     (if page < maxPages then
        (let req = scroll_payload off
         in case up page req of
              Inl e \<Rightarrow> ([req], Inl e)
            | Inr None \<Rightarrow> ([req], Inl TypeError)
            | Inr (Some r) \<Rightarrow>
                (let pts = page_points r;
                     allPoints' = allPoints @ pts;
                     nextOffset = page_next r
                 in if \<not> truthy nextOffset \<or> length pts = 0
                    then ([req], Inr (allPoints', Break))
                    else (case scroll_pages up (page + 1) nextOffset allPoints' of
                            (reqs, out) \<Rightarrow> (req # reqs, out))))
      else ([], Inr (allPoints, Ceiling)))"
  by pat_completeness auto
termination
  by (relation "measure (\<lambda>(up, page, off, allPoints). maxPages - page)") auto

declare scroll_pages.simps [simp del]

section \<open>The document catalog: grouping\<close>

record doc =
  doc_title :: jsstring
  doc_repo :: jsstring
  doc_document_type :: jsstring
  doc_jurisdictions :: "jsstring list"
  doc_topics :: "jsstring list"
  chunks :: nat

text \<open>\<open>pt.payload || {}\<close>: every property of the empty object is absent.\<close>

definition empty_payload :: payload where
  "empty_payload =
     \<lparr>title = None, source_url = None, repo = None, document_type = None,
      jurisdictions = None, topics = None\<rparr>"

definition payload_of :: "point \<Rightarrow> payload" where
  "payload_of pt = (case payload pt of None \<Rightarrow> empty_payload | Some p \<Rightarrow> p)"

text \<open>\<open>p.title || "Untitled"\<close>\<close>

definition derive_title :: "payload \<Rightarrow> jsstring" where
  "derive_title p = or_str (title p) (str ''Untitled'')"

text \<open>The key \<^verbatim>\<open>`${repo}::${title}`\<close>.\<close>

definition doc_key :: "jsstring \<Rightarrow> jsstring \<Rightarrow> jsstring" where
  "doc_key r t = r @ str ''::'' @ t"

text \<open>
  \<open>docMap\<close> is an object whose keys all contain \<open>::\<close>: none is an array index and none
  names a property of \<open>Object.prototype\<close>, so its own properties in insertion order are all
  there is to it. It is modelled as an association list in insertion order.
\<close>

type_synonym docMap = "(jsstring \<times> doc) list"

text \<open>\<open>docMap[key].chunks++\<close>\<close>

fun incr_chunks :: "jsstring \<Rightarrow> docMap \<Rightarrow> docMap" where
  "incr_chunks key [] = []"
| "incr_chunks key ((k, d) # rest) =
     (if k = key then (k, d\<lparr>chunks := chunks d + 1\<rparr>) # rest
      else (k, d) # incr_chunks key rest)"

text \<open>One iteration of \<open>for (const pt of allPoints)\<close>.\<close>

definition add_point :: "docMap \<Rightarrow> point \<Rightarrow> docMap" where
  "add_point docMap pt =
     (let p = payload_of pt;
          t = derive_title p;
          r = derive_repo p;
          key = doc_key r t;
          docMap' =
            (if map_of docMap key = None
             then docMap @
                    [(key, \<lparr>doc_title = t, doc_repo = r,
                            doc_document_type = or_str (document_type p) (str ''unknown''),
                            doc_jurisdictions = or_arr (jurisdictions p) [],
                            doc_topics = or_arr (topics p) [],
                            chunks = 0\<rparr>)]
             else docMap)
      in incr_chunks key docMap')"

text \<open>The key of a point and the document a first point of its key seeds.\<close>

definition point_key :: "point \<Rightarrow> jsstring" where
  "point_key pt = doc_key (derive_repo (payload_of pt)) (derive_title (payload_of pt))"

definition seed_doc :: "point \<Rightarrow> doc" where
  "seed_doc pt =
     (let p = payload_of pt
      in \<lparr>doc_title = derive_title p, doc_repo = derive_repo p,
          doc_document_type = or_str (document_type p) (str ''unknown''),
          doc_jurisdictions = or_arr (jurisdictions p) [],
          doc_topics = or_arr (topics p) [],
          chunks = 0\<rparr>)"

definition group_points :: "point list \<Rightarrow> docMap" where
  "group_points allPoints = foldl add_point [] allPoints"

text \<open>
  The response of \<open>GET /api/documents\<close>. \<open>documents\<close> is \<open>Object.values(docMap)\<close>. The
  \<open>repos\<close> summary, which the handler computes from \<open>documents\<close> alone, is left out.
\<close>

record catalog =
  documents :: "doc list"
  total_documents :: nat
  total_chunks :: nat

definition build_catalog :: "point list \<Rightarrow> catalog" where
  "build_catalog allPoints =
     (let documents = map snd (group_points allPoints)
      in \<lparr>documents = documents, total_documents = length documents,
          total_chunks = length allPoints\<rparr>)"

section \<open>The query log\<close>

text \<open>
  A number that a JavaScript expression computes (\<open>parseFloat\<close> can return \<open>NaN\<close> and the
  infinities).
\<close>

datatype number = NaN | PosInf | NegInf | Fin rat

text \<open>
  One row of \<open>query_log\<close>. The columns an \<open>INSERT\<close> or \<open>UPDATE\<close> fills from a bound
  parameter hold that parameter's value (\<open>JNull\<close> for SQL \<open>NULL\<close>); the driver's conversion
  of values to text is not modelled.
\<close>

record row =
  row_id :: nat
  question :: jsstring
  answer :: jsval
  confidence :: jsval
  verdict :: jsval
  quality_score :: jsval
  category :: jsval
  complexity :: jsval
  citation_count :: jsval
  routing :: jsval
  processing_time_s :: number
  feedback :: jsval
  created_at :: nat
  stale :: bool
  stale_reason :: "jsstring option"

text \<open>The table and its \<open>SERIAL\<close> sequence.\<close>

record store =
  rows :: "row list"
  seq :: nat

text \<open>The ten values bound by the \<open>INSERT\<close> of \<open>POST /api/ask\<close>, in order.\<close>

record insert_params =
  ins_question :: jsstring
  ins_answer :: jsval
  ins_confidence :: jsval
  ins_verdict :: jsval
  ins_quality_score :: jsval
  ins_category :: jsval
  ins_complexity :: jsval
  ins_citation_count :: jsval
  ins_routing :: jsval
  ins_processing_time_s :: number

text \<open>
  The statements of the program, clause by clause. An \<open>UPDATE\<close> is its \<open>SET\<close> list, the
  conjuncts of its \<open>WHERE\<close>, and the \<open>ORDER BY\<close> and \<open>LIMIT\<close> clauses when the text has
  them.
\<close>

datatype assignment =
    SetStale bool              \<comment> \<open>\<open>stale = TRUE\<close>\<close>
  | SetStaleReason jsstring    \<comment> \<open>\<open>stale_reason = $n\<close>\<close>
  | SetFeedback jsval          \<comment> \<open>\<open>feedback = $n\<close>\<close>

datatype cond =
    StaleEq bool               \<comment> \<open>\<open>stale = FALSE\<close>\<close>
  | QuestionEq jsval           \<comment> \<open>\<open>question = $n\<close>\<close>
  | FeedbackIsNull             \<comment> \<open>\<open>feedback IS NULL\<close>\<close>

datatype ordering = CreatedAtDesc    \<comment> \<open>\<open>ORDER BY created_at DESC\<close>\<close>

datatype statement =
    CreateTableIfNotExists
  | InsertInto insert_params
  | Update "assignment list" "cond list" "ordering option" "nat option"
  | SelectRecent nat
  | SelectStats

datatype query_result =
    Done
  | Rows "row list"
  | Stats nat nat nat nat    \<comment> \<open>total, stale_count, thumbs_up, thumbs_down\<close>

fun null_of :: "jsval \<Rightarrow> jsval" where
  "null_of JUndefined = JNull"
| "null_of v = v"

fun assign :: "assignment \<Rightarrow> row \<Rightarrow> row" where
  "assign (SetStale b) r = r\<lparr>stale := b\<rparr>"
| "assign (SetStaleReason s) r = r\<lparr>stale_reason := Some s\<rparr>"
| "assign (SetFeedback v) r = r\<lparr>feedback := null_of v\<rparr>"

text \<open>A comparison with \<open>NULL\<close> is never true; \<open>question\<close> is compared as text.\<close>

fun holds :: "cond \<Rightarrow> row \<Rightarrow> bool" where
  "holds (StaleEq b) r = (stale r = b)"
| "holds (QuestionEq v) r = (v = JStr (question r))"
| "holds FeedbackIsNull r = (feedback r = JNull)"

definition update_row :: "assignment list \<Rightarrow> cond list \<Rightarrow> row \<Rightarrow> row" where
  "update_row sets conds r = (if list_all (\<lambda>c. holds c r) conds then fold assign sets r else r)"

text \<open>
  The inserted row: \<open>id\<close> from the sequence, \<open>created_at\<close> from the server clock, and the
  column defaults \<open>feedback = NULL\<close>, \<open>stale = FALSE\<close>, \<open>stale_reason = NULL\<close>.
\<close>

definition new_row :: "nat \<Rightarrow> nat \<Rightarrow> insert_params \<Rightarrow> row" where
  "new_row n clock ps =
     \<lparr>row_id = n, question = ins_question ps, answer = ins_answer ps,
      confidence = ins_confidence ps, verdict = ins_verdict ps,
      quality_score = ins_quality_score ps, category = ins_category ps,
      complexity = ins_complexity ps, citation_count = ins_citation_count ps,
      routing = ins_routing ps, processing_time_s = ins_processing_time_s ps,
      feedback = JNull, created_at = clock, stale = False, stale_reason = None\<rparr>"

text \<open>
  What PostgreSQL does with a statement that reaches it. \<open>backend_ok\<close> says whether the
  server is reachable and runs the statement without a fault of its own; a fault is a
  rejected promise. PostgreSQL's \<open>UPDATE\<close> has no \<open>ORDER BY\<close> and no \<open>LIMIT\<close> clause (its
  grammar is \<open>UPDATE ... SET ... [FROM ...] [WHERE ...] [RETURNING ...]\<close>): the server
  answers a statement that has one with a syntax error and changes nothing.
  \<open>SelectRecent\<close> is \<open>ORDER BY created_at DESC LIMIT n\<close>; the averages of \<open>SelectStats\<close>
  are left out.
\<close>

definition run_statement ::
  "bool \<Rightarrow> nat \<Rightarrow> store \<Rightarrow> statement \<Rightarrow> (error + query_result) \<times> store" where
  "run_statement backend_ok clock st stmt =
     (if \<not> backend_ok then (Inl BackendFailure, st)
      else case stmt of
             CreateTableIfNotExists \<Rightarrow> (Inr Done, st)
           | InsertInto ps \<Rightarrow>
               (Inr Done,
                st\<lparr>rows := rows st @ [new_row (seq st + 1) clock ps], seq := seq st + 1\<rparr>)
           | Update sets conds order_by lmt \<Rightarrow>
               (if order_by \<noteq> None \<or> lmt \<noteq> None then (Inl SqlSyntaxError, st)
                else (Inr Done, st\<lparr>rows := map (update_row sets conds) (rows st)\<rparr>))
           | SelectRecent n \<Rightarrow> (Inr (Rows (take n (rev (sort_key created_at (rows st))))), st)
           | SelectStats \<Rightarrow>
               (Inr (Stats (length (rows st))
                       (length (filter stale (rows st)))
                       (length (filter (\<lambda>r. feedback r = JStr (str ''up'')) (rows st)))
                       (length (filter (\<lambda>r. feedback r = JStr (str ''down'')) (rows st)))),
                st))"

text \<open>
  The \<open>pg\<close> client object. \<open>queryable c\<close> says that the connection of \<open>c\<close> was
  established (\<open>connect()\<close> resolved), so that a query on \<open>c\<close> is sent to the server.
\<close>

datatype client = Client (queryable: bool)

text \<open>
  \<open>pg.query(text, params)\<close>, awaited. On a client with an established connection the
  promise settles with what the server does. On a client whose \<open>connect()\<close> failed the
  query is queued behind a connection that never becomes ready: the promise neither
  resolves nor rejects (\<open>None\<close>), and the \<open>await\<close> never returns.
\<close>

definition pg_query ::
  "bool \<Rightarrow> nat \<Rightarrow> client \<Rightarrow> store \<Rightarrow> statement \<Rightarrow> (error + query_result) option \<times> store" where
  "pg_query backend_ok clock c st stmt =
     (if queryable c
      then (case run_statement backend_ok clock st stmt of (res, st') \<Rightarrow> (Some res, st'))
      else (None, st))"

section \<open>The environment of a request\<close>

text \<open>
  Everything a handler gets from outside during one request: how the database behaves, the
  clocks, the three upstream services, and the two built-in conversions on floating-point
  numbers that the handlers call (parameters here).
\<close>

record query_payload =
  qp_question :: jsstring
  qp_channel :: jsstring
  qp_user :: jsstring

record ingest_payload =
  ip_title :: jsstring
  ip_document_type :: jsval
  ip_repo :: jsval
  ip_content :: jsstring
  ip_source_url :: jsstring
  ip_source :: jsstring

record env =
  connect_ok :: bool        \<comment> \<open>\<open>db.connect()\<close> resolves\<close>
  create_ok :: bool         \<comment> \<open>the \<open>CREATE TABLE\<close> of \<open>getDb\<close> resolves\<close>
  query_ok :: bool          \<comment> \<open>the server runs the handler's (first) statement\<close>
  stats_ok :: bool          \<comment> \<open>the server runs the second statement of \<open>/api/memory\<close>\<close>
  db_clock :: nat           \<comment> \<open>\<open>NOW()\<close>\<close>
  now_iso :: jsstring       \<comment> \<open>\<open>new Date().toISOString()\<close>\<close>
  query_upstream :: "query_payload \<Rightarrow> error + jsval"
  ingest_upstream :: "ingest_payload \<Rightarrow> error + jsval"
  scroll_up :: scroll_upstream
  parseFloat :: "jsval \<Rightarrow> number"
  numberToString :: "rat \<Rightarrow> jsstring"

text \<open>The process: the module variable \<open>db\<close>. \<open>PG_URL\<close> is configuration.\<close>

record server =
  db :: "client option"

section \<open>Acquiring the database handle\<close>

text \<open>
  \<^verbatim>\<open>
  let db = null;
  async function getDb() {
    if (db) return db;
    if (!PG_URL) return null;
    db = new Client({ connectionString: PG_URL, ... });
    await db.connect();
    await db.query(`CREATE TABLE IF NOT EXISTS query_log (...)`);
    return db;
  }
  \<close>
  The result is the resolved value (\<open>None\<close> for \<open>null\<close>) or the rejection, with the new
  value of \<open>db\<close>. The \<open>CREATE TABLE\<close> is sent on the connection that was just established,
  so it reaches the server.
\<close>

definition getDb :: "jsstring \<Rightarrow> env \<Rightarrow> store \<Rightarrow> server \<Rightarrow> (error + client option) \<times> server" where
  "getDb PG_URL e st s =
     (case db s of
        Some c \<Rightarrow> (Inr (Some c), s)
      | None \<Rightarrow>
          if PG_URL = [] then (Inr None, s)
          else
            (let s1 = s\<lparr>db := Some (Client False)\<rparr>
             in if \<not> connect_ok e then (Inl ConnectFailed, s1)
                else
                  (let s2 = s\<lparr>db := Some (Client True)\<rparr>
                   in case fst (run_statement (create_ok e) (db_clock e) st
                                  CreateTableIfNotExists) of
                        Inl err \<Rightarrow> (Inl err, s2)
                      | Inr _ \<Rightarrow> (Inr (Some (Client True)), s2))))"

section \<open>Conversions and property access on values\<close>

fun join_js :: "jsstring list \<Rightarrow> jsstring \<Rightarrow> jsstring" where
  "join_js [] sep = []"
| "join_js [x] sep = x"
| "join_js (x # y # ys) sep = x @ sep @ join_js (y # ys) sep"

text \<open>
  The string a template literal puts in for a value. How a number prints is a matter of
  floating point and is the parameter \<open>fmt\<close>. An array prints its elements joined by
  commas, \<open>undefined\<close> and \<open>null\<close> elements as nothing.
\<close>

fun to_string :: "(rat \<Rightarrow> jsstring) \<Rightarrow> jsval \<Rightarrow> jsstring" where
  "to_string fmt JUndefined = str ''undefined''"
| "to_string fmt JNull = str ''null''"
| "to_string fmt (JBool b) = (if b then str ''true'' else str ''false'')"
| "to_string fmt (JNum n) = fmt n"
| "to_string fmt (JStr s) = s"
| "to_string fmt (JArr xs) =
     join_js (map (\<lambda>x. if x = JUndefined \<or> x = JNull then [] else to_string fmt x) xs)
       (str '','')"
| "to_string fmt (JObj kvs) = str ''[object Object]''"

text \<open>
  \<open>v.name\<close> for the property names the handlers read (\<open>answer\<close>, \<open>confidence\<close>, ...; none
  is a built-in property of a string, a number, an array or \<open>Object.prototype\<close>): a
  \<open>TypeError\<close> on \<open>undefined\<close> and \<open>null\<close>, the own property of an object, and
  \<open>undefined\<close> otherwise.
\<close>

fun get_prop :: "jsval \<Rightarrow> jsstring \<Rightarrow> error + jsval" where
  "get_prop JUndefined name = Inl TypeError"
| "get_prop JNull name = Inl TypeError"
| "get_prop (JObj kvs) name =
     Inr (case map_of kvs name of None \<Rightarrow> JUndefined | Some v \<Rightarrow> v)"
| "get_prop v name = Inr JUndefined"

text \<open>
  \<open>v.trim()\<close>: the method exists on strings only; on any other truthy value \<open>v.trim\<close> is
  \<open>undefined\<close> (or, for an object parsed from JSON, not a function) and the call throws.
\<close>

fun call_trim :: "jsval \<Rightarrow> error + jsstring" where
  "call_trim (JStr s) = Inr (trim s)"
| "call_trim v = Inl TypeError"

section \<open>Responses\<close>

datatype body =
    Json jsval                   \<comment> \<open>\<open>res.json(result)\<close>\<close>
  | ErrorText string             \<comment> \<open>\<open>{ error: "..." }\<close> with a fixed text\<close>
  | ErrorMessage error           \<comment> \<open>\<open>{ error: err.message }\<close>\<close>
  | OkTrue                       \<comment> \<open>\<open>{ ok: true }\<close>\<close>
  | CatalogBody catalog
  | MemoryBody query_result query_result
  | MemoryUnavailable            \<comment> \<open>\<open>{ entries: [], total: 0, message: ... }\<close>\<close>
  | StatusOk                     \<comment> \<open>\<open>{ status: "ok" }\<close>\<close>

text \<open>
  What a handler does with a request: it sends a response with a status; or it throws
  outside every \<open>try\<close>, so that its promise rejects and no response is sent by it; or it
  stays at an \<open>await\<close> that never returns, and no response is ever sent.
\<close>

datatype outcome = Response nat body | Uncaught error | NoResponse

text \<open>Whether control comes back from a block of the handler, or stays at an \<open>await\<close>.\<close>

datatype progress = Continues | Suspended

section \<open>POST /api/ask\<close>

text \<open>
  The parameter array of the \<open>INSERT\<close>, \<open>[question.trim(), result.answer || "", ...,
  parseFloat(result.processing_time_s) || 0]\<close>. Reading \<open>result.answer\<close> throws when
  \<open>result\<close> is \<open>undefined\<close> or \<open>null\<close>; the later reads cannot throw then.
\<close>

definition insert_params_of :: "env \<Rightarrow> jsstring \<Rightarrow> jsval \<Rightarrow> error + insert_params" where
  "insert_params_of e q r =
     (case get_prop r (str ''answer'') of
        Inl err \<Rightarrow> Inl err
      | Inr answer_v \<Rightarrow>
          (let prop = (\<lambda>name. case get_prop r (str name) of Inl _ \<Rightarrow> JUndefined | Inr v \<Rightarrow> v)
           in Inr \<lparr>ins_question = q,
                   ins_answer = js_or answer_v (JStr []),
                   ins_confidence = js_or (prop ''confidence'') (JStr (str ''MEDIUM'')),
                   ins_verdict = js_or (prop ''judge_verdict'') (JStr (str ''NEEDS_EDIT'')),
                   ins_quality_score = js_or (prop ''judge_quality'') (JNum 0),
                   ins_category = js_or (prop ''category'') (JStr (str ''general'')),
                   ins_complexity = js_or (prop ''complexity'') (JStr (str ''complex'')),
                   ins_citation_count = js_or (prop ''citation_count'') (JNum 0),
                   ins_routing = js_or (prop ''routing'') (JStr (str ''human_review'')),
                   ins_processing_time_s =
                     (case parseFloat e (prop ''processing_time_s'') of
                        NaN \<Rightarrow> Fin 0
                      | Fin x \<Rightarrow> if x = 0 then Fin 0 else Fin x
                      | n \<Rightarrow> n)\<rparr>))"

text \<open>
  The inner \<open>try\<close> of the handler (``Log to PostgreSQL''): whatever is thrown in it is
  caught and logged. An \<open>await\<close> that never returns is not an exception: the handler
  stays there.
\<close>

definition log_query ::
  "jsstring \<Rightarrow> env \<Rightarrow> jsstring \<Rightarrow> jsval \<Rightarrow> server \<times> store \<Rightarrow> progress \<times> server \<times> store" where
  "log_query PG_URL e q r state =
     (case state of (s, st) \<Rightarrow>
        (case getDb PG_URL e st s of
           (Inl err, s') \<Rightarrow> (Continues, s', st)
         | (Inr None, s') \<Rightarrow> (Continues, s', st)
         | (Inr (Some pg), s') \<Rightarrow>
             (case insert_params_of e q r of
                Inl err \<Rightarrow> (Continues, s', st)
              | Inr ps \<Rightarrow>
                  (case pg_query (query_ok e) (db_clock e) pg st (InsertInto ps) of
                     (None, st') \<Rightarrow> (Suspended, s', st')
                   | (Some res, st') \<Rightarrow> (Continues, s', st')))))"

text \<open>
  \<^verbatim>\<open>
  const { question } = req.body;
  if (!question || question.trim().length < 5) {
    return res.status(400).json({ error: "Question too short" });
  }
  try {
    const result = await proxyRequest(QUERY_URL,
      { question: question.trim(), channel: "qa-form", user: "form-user" }, 300000);
    try { ... INSERT ... } catch (dbErr) { console.error(...); }
    res.json(result);
  } catch (err) {
    res.status(502).json({ error: err.message });
  }
  \<close>
\<close>

definition ask :: "jsstring \<Rightarrow> env \<Rightarrow> jsval \<Rightarrow> server \<times> store \<Rightarrow> outcome \<times> server \<times> store" where
  "ask PG_URL e question_v state =
     (if \<not> truthy question_v then (Response 400 (ErrorText ''Question too short''), state)
      else case call_trim question_v of
             Inl err \<Rightarrow> (Uncaught err, state)
           | Inr q \<Rightarrow>
               if length q < 5 then (Response 400 (ErrorText ''Question too short''), state)
               else
                 (case query_upstream e
                         \<lparr>qp_question = q, qp_channel = str ''qa-form'',
                          qp_user = str ''form-user''\<rparr> of
                    Inl err \<Rightarrow> (Response 502 (ErrorMessage err), state)
                  | Inr r \<Rightarrow>
                      (case log_query PG_URL e q r state of
                         (Suspended, state') \<Rightarrow> (NoResponse, state')
                       | (Continues, state') \<Rightarrow> (Response 200 (Json r), state'))))"

section \<open>POST /api/ingest\<close>

text \<open>
  The payload sent to the ingestion service. \<open>title.trim()\<close> and \<open>content.trim()\<close> throw
  inside the \<open>try\<close> when the field is not a string.
\<close>

definition ingest_payload_of ::
  "env \<Rightarrow> jsval \<Rightarrow> jsval \<Rightarrow> jsval \<Rightarrow> jsval \<Rightarrow> error + ingest_payload" where
  "ingest_payload_of e title_v type_v repo_v content_v =
     (case call_trim title_v of
        Inl err \<Rightarrow> Inl err
      | Inr t \<Rightarrow>
          (case call_trim content_v of
             Inl err \<Rightarrow> Inl err
           | Inr c \<Rightarrow>
               Inr \<lparr>ip_title = t,
                    ip_document_type = js_or type_v (JStr (str ''policy'')),
                    ip_repo = js_or repo_v (JStr (str ''general'')),
                    ip_content = c,
                    ip_source_url =
                      str ''form://''
                      @ to_string (numberToString e) (js_or repo_v (JStr (str ''general'')))
                      @ str ''/'' @ t,
                    ip_source = str ''qa-form''\<rparr>))"

text \<open>The reason \<^verbatim>\<open>`KB updated: ${title.trim()} ingested at ${new Date().toISOString()}`\<close>.\<close>

definition stale_reason_of :: "env \<Rightarrow> jsstring \<Rightarrow> jsstring" where
  "stale_reason_of e t = str ''KB updated: '' @ t @ str '' ingested at '' @ now_iso e"

text \<open>
  The inner \<open>try\<close> (``Mark cached answers as potentially stale when KB changes''), which
  sends \<open>UPDATE query_log SET stale = TRUE, stale_reason = $1 WHERE stale = FALSE\<close>.
\<close>

definition mark_stale ::
  "jsstring \<Rightarrow> env \<Rightarrow> jsstring \<Rightarrow> server \<times> store \<Rightarrow> progress \<times> server \<times> store" where
  "mark_stale PG_URL e t state =
     (case state of (s, st) \<Rightarrow>
        (case getDb PG_URL e st s of
           (Inl err, s') \<Rightarrow> (Continues, s', st)
         | (Inr None, s') \<Rightarrow> (Continues, s', st)
         | (Inr (Some pg), s') \<Rightarrow>
             (case pg_query (query_ok e) (db_clock e) pg st
                     (Update [SetStale True, SetStaleReason (stale_reason_of e t)]
                        [StaleEq False] None None) of
                (None, st') \<Rightarrow> (Suspended, s', st')
              | (Some res, st') \<Rightarrow> (Continues, s', st'))))"

definition ingest ::
  "jsstring \<Rightarrow> env \<Rightarrow> jsval \<Rightarrow> jsval \<Rightarrow> jsval \<Rightarrow> jsval \<Rightarrow> server \<times> store
     \<Rightarrow> outcome \<times> server \<times> store" where
  "ingest PG_URL e title_v type_v repo_v content_v state =
     (if \<not> truthy title_v \<or> \<not> truthy content_v
      then (Response 400 (ErrorText ''Title and content required''), state)
      else case ingest_payload_of e title_v type_v repo_v content_v of
             Inl err \<Rightarrow> (Response 502 (ErrorMessage err), state)
           | Inr pl \<Rightarrow>
               (case ingest_upstream e pl of
                  Inl err \<Rightarrow> (Response 502 (ErrorMessage err), state)
                | Inr r \<Rightarrow>
                    (case mark_stale PG_URL e (ip_title pl) state of
                       (Suspended, state') \<Rightarrow> (NoResponse, state')
                     | (Continues, state') \<Rightarrow> (Response 200 (Json r), state'))))"

section \<open>POST /api/feedback\<close>

text \<open>
  \<^verbatim>\<open>
  const pg = await getDb();
  if (pg && question) {
    await pg.query(
      `UPDATE query_log SET feedback = $1 WHERE question = $2 AND feedback IS NULL
       ORDER BY created_at DESC LIMIT 1`, [feedback, question]);
  }
  res.json({ ok: true });
  \<close>
  inside a \<open>try\<close> whose \<open>catch\<close> answers 500.
\<close>

definition feedback_statement :: "jsval \<Rightarrow> jsval \<Rightarrow> statement" where
  "feedback_statement feedback_v question_v =
     Update [SetFeedback feedback_v] [QuestionEq question_v, FeedbackIsNull]
       (Some CreatedAtDesc) (Some 1)"

definition post_feedback ::
  "jsstring \<Rightarrow> env \<Rightarrow> jsval \<Rightarrow> jsval \<Rightarrow> server \<times> store \<Rightarrow> outcome \<times> server \<times> store" where
  "post_feedback PG_URL e question_v feedback_v state =
     (case state of (s, st) \<Rightarrow>
        (case getDb PG_URL e st s of
           (Inl err, s') \<Rightarrow> (Response 500 (ErrorMessage err), s', st)
         | (Inr None, s') \<Rightarrow> (Response 200 OkTrue, s', st)
         | (Inr (Some pg), s') \<Rightarrow>
             if truthy question_v then
               (case pg_query (query_ok e) (db_clock e) pg st
                       (feedback_statement feedback_v question_v) of
                  (None, st') \<Rightarrow> (NoResponse, s', st')
                | (Some (Inl err), st') \<Rightarrow> (Response 500 (ErrorMessage err), s', st')
                | (Some (Inr _), st') \<Rightarrow> (Response 200 OkTrue, s', st'))
             else (Response 200 OkTrue, s', st)))"

section \<open>GET /api/memory, GET /api/documents, GET /health\<close>

definition memory :: "jsstring \<Rightarrow> env \<Rightarrow> server \<times> store \<Rightarrow> outcome \<times> server \<times> store" where
  "memory PG_URL e state =
     (case state of (s, st) \<Rightarrow>
        (case getDb PG_URL e st s of
           (Inl err, s') \<Rightarrow> (Response 500 (ErrorMessage err), s', st)
         | (Inr None, s') \<Rightarrow> (Response 200 MemoryUnavailable, s', st)
         | (Inr (Some pg), s') \<Rightarrow>
             (case pg_query (query_ok e) (db_clock e) pg st (SelectRecent 100) of
                (None, st1) \<Rightarrow> (NoResponse, s', st1)
              | (Some (Inl err), st1) \<Rightarrow> (Response 500 (ErrorMessage err), s', st1)
              | (Some (Inr entries), st1) \<Rightarrow>
                  (case pg_query (stats_ok e) (db_clock e) pg st1 SelectStats of
                     (None, st2) \<Rightarrow> (NoResponse, s', st2)
                   | (Some (Inl err), st2) \<Rightarrow> (Response 500 (ErrorMessage err), s', st2)
                   | (Some (Inr stats), st2) \<Rightarrow>
                       (Response 200 (MemoryBody entries stats), s', st2)))))"

text \<open>
  The scan starts at \<open>page = 0\<close>, \<open>offset = null\<close>, \<open>allPoints = []\<close>; any error of the
  scan is answered with 502 and no catalog.
\<close>

definition scan :: "scroll_upstream \<Rightarrow> scroll_request list \<times> (error + point list \<times> loop_exit)" where
  "scan up = scroll_pages up 0 JNull []"

definition get_documents :: "scroll_upstream \<Rightarrow> outcome" where
  "get_documents up =
     (case snd (scan up) of
        Inl err \<Rightarrow> Response 502 (ErrorMessage err)
      | Inr (allPoints, ex) \<Rightarrow> Response 200 (CatalogBody (build_catalog allPoints)))"

section \<open>The server as a whole\<close>

datatype request =
    PostAsk jsval                        \<comment> \<open>\<open>question\<close>\<close>
  | PostIngest jsval jsval jsval jsval   \<comment> \<open>\<open>title\<close>, \<open>type\<close>, \<open>repo\<close>, \<open>content\<close>\<close>
  | PostFeedback jsval jsval             \<comment> \<open>\<open>question\<close>, \<open>feedback\<close>\<close>
  | GetMemory
  | GetDocuments
  | GetHealth

fun handle :: "jsstring \<Rightarrow> env \<Rightarrow> request \<Rightarrow> server \<times> store \<Rightarrow> outcome \<times> server \<times> store" where
  "handle PG_URL e (PostAsk q) state = ask PG_URL e q state"
| "handle PG_URL e (PostIngest t ty r c) state = ingest PG_URL e t ty r c state"
| "handle PG_URL e (PostFeedback q f) state = post_feedback PG_URL e q f state"
| "handle PG_URL e GetMemory state = memory PG_URL e state"
| "handle PG_URL e GetDocuments state = (get_documents (scroll_up e), state)"
| "handle PG_URL e GetHealth state = (Response 200 StatusOk, state)"

section \<open>Runs of the server and what they keep\<close>

text \<open>
  The module calls \<open>getDb()\<close> once when it is loaded; after that the process serves one
  request after the other, each in its own environment.
\<close>

definition startup :: "jsstring \<Rightarrow> env \<Rightarrow> store \<Rightarrow> server" where
  "startup PG_URL e st = snd (getDb PG_URL e st \<lparr>db = None\<rparr>)"

fun run :: "jsstring \<Rightarrow> (env \<times> request) list \<Rightarrow> server \<times> store \<Rightarrow> server \<times> store" where
  "run PG_URL [] state = state"
| "run PG_URL ((e, req) # rest) state = run PG_URL rest (snd (handle PG_URL e req state))"

text \<open>
  \<open>stale_kept st st'\<close>: every row of \<open>st\<close> is still there in \<open>st'\<close>, at its place and with
  its id; a row that was stale is stale with the reason it had; a row that had a reason
  has one.
\<close>

definition stale_kept :: "store \<Rightarrow> store \<Rightarrow> bool" where
  "stale_kept st st' =
     (length (rows st) \<le> length (rows st') \<and>
      (\<forall>i < length (rows st).
         row_id (rows st' ! i) = row_id (rows st ! i) \<and>
         (stale (rows st ! i) \<longrightarrow>
            stale (rows st' ! i) \<and> stale_reason (rows st' ! i) = stale_reason (rows st ! i)) \<and>
         (stale_reason (rows st ! i) \<noteq> None \<longrightarrow> stale_reason (rows st' ! i) \<noteq> None)))"

section \<open>Example data\<close>

text \<open>
  A quiet environment: the database and the three upstream services all answer. The
  question-answering service returns the answer of the specification's scenario, the
  vector store one empty page.
\<close>

definition example_answer :: jsval where
  "example_answer =
     JObj [(str ''answer'', JStr (str ''30 days'')),
           (str ''confidence'', JStr (str ''HIGH'')),
           (str ''citation_count'', JNum 2)]"

definition example_env :: env where
  "example_env =
     \<lparr>connect_ok = True, create_ok = True, query_ok = True, stats_ok = True,
      db_clock = 7, now_iso = str ''2024-05-01T10:00:00.000Z'',
      query_upstream = (\<lambda>p. Inr example_answer),
      ingest_upstream = (\<lambda>p. Inr (JObj [(str ''ok'', JBool True)])),
      scroll_up = (\<lambda>k req. Inr (Some \<lparr>points = Some [], next_page_offset = JUndefined,
                                        result = None\<rparr>)),
      parseFloat = (\<lambda>v. NaN),
      numberToString = (\<lambda>n. [])\<rparr>"

definition example_url :: jsstring where
  "example_url = str ''postgres://qa@db/qa''"

text \<open>A row as \<open>POST /api/ask\<close> leaves it, with the given id and question.\<close>

definition example_row :: "nat \<Rightarrow> jsstring \<Rightarrow> row" where
  "example_row n q =
     new_row n n
       \<lparr>ins_question = q, ins_answer = JStr (str ''30 days''),
        ins_confidence = JStr (str ''HIGH''), ins_verdict = JStr (str ''NEEDS_EDIT''),
        ins_quality_score = JNum 0, ins_category = JStr (str ''general''),
        ins_complexity = JStr (str ''complex''), ins_citation_count = JNum 2,
        ins_routing = JStr (str ''human_review''), ins_processing_time_s = Fin 0\<rparr>"

definition three_fresh_rows :: store where
  "three_fresh_rows =
     \<lparr>rows = [example_row 1 (str ''What is the notice period?''),
              example_row 2 (str ''Who approves leave?''),
              example_row 3 (str ''What is the notice period?'')],
      seq = 3\<rparr>"

definition connected :: server where
  "connected = \<lparr>db = Some (Client True)\<rparr>"

definition unconnected :: server where
  "unconnected = \<lparr>db = None\<rparr>"

text \<open>
  Two vector stores that hold the same point on every page. The first always names a next
  page, so the scan stops at the page ceiling with points left behind; the second has
  exactly twenty pages (in the nested shape) and ends the scan itself on the last one.
\<close>

definition one_point :: point where
  "one_point =
     \<lparr>payload = Some (empty_payload\<lparr>title := Some (str ''Policy A''),
                        source_url := Some (str ''form://acme/Policy A'')\<rparr>)\<rparr>"

definition endless_store :: scroll_upstream where
  "endless_store k req =
     Inr (Some \<lparr>points = Some [one_point], next_page_offset = JNum (of_nat k + 1),
                result = None\<rparr>)"

definition twenty_page_store :: scroll_upstream where
  "twenty_page_store k req =
     Inr (Some \<lparr>points = None, next_page_offset = JUndefined,
                result = Some \<lparr>points = Some [one_point],
                                next_page_offset =
                                  (if k < 19 then JNum (of_nat k + 1) else JNull)\<rparr>\<rparr>)"

text \<open>
  Two points of two different documents, as the ingestion of title \<open>c\<close> into repo \<open>a::b\<close>
  and of title \<open>b::c\<close> into repo \<open>a\<close> leaves them.
\<close>

definition point_ab_c :: point where
  "point_ab_c =
     \<lparr>payload = Some (empty_payload\<lparr>title := Some (str ''c''),
                        source_url := Some (str ''form://a::b/c''),
                        document_type := Some (str ''policy'')\<rparr>)\<rparr>"

definition point_a_bc :: point where
  "point_a_bc =
     \<lparr>payload = Some (empty_payload\<lparr>title := Some (str ''b::c''),
                        source_url := Some (str ''form://a/b::c''),
                        document_type := Some (str ''contract'')\<rparr>)\<rparr>"

definition colliding_store :: scroll_upstream where
  "colliding_store k req =
     Inr (Some \<lparr>points = Some [point_ab_c, point_a_bc], next_page_offset = JNull,
                result = None\<rparr>)"

section \<open>Facts about the string operations\<close>

lemma replace_js_prefix: "replace_js (pat @ rest) pat rep = rep @ rest"
proof (cases "pat @ rest")
  case Nil
  then show ?thesis by simp
next
  case (Cons a list)
  have pre: "prefix pat (a # list)"
    using Cons by (metis prefixI)
  have "drop (length pat) (a # list) = rest"
    using Cons by (metis append_eq_conv_conj)
  with pre Cons show ?thesis by simp
qed

lemma split_from_single:
  "\<exists>more. split_from [c] cur s = (rev cur @ takeWhile (\<lambda>x. x \<noteq> c) s) # more"
proof (induction s arbitrary: cur)
  case Nil
  show ?case by simp
next
  case (Cons a s)
  show ?case
  proof (cases "a = c")
    case True
    then show ?thesis by simp
  next
    case False
    from Cons.IH [of "a # cur"] obtain more
      where "split_from [c] (a # cur) s = (rev (a # cur) @ takeWhile (\<lambda>x. x \<noteq> c) s) # more"
      by blast
    with False show ?thesis by simp
  qed
qed

lemma first_elem_split:
  "first_elem (split_js s [c]) = Some (takeWhile (\<lambda>x. x \<noteq> c) s)"
proof -
  from split_from_single [of c "[]" s] obtain more
    where "split_from [c] [] s = takeWhile (\<lambda>x. x \<noteq> c) s # more"
    by auto
  then show ?thesis by (simp add: split_js_def first_elem_def)
qed

lemma str_slash: "str ''/'' = [0x2F]"
  by (simp add: str_def)

lemma str_form_nonempty: "str ''form://'' \<noteq> []"
  by (simp add: str_def)

lemma str_gdrive_nonempty: "str ''gdrive://'' \<noteq> []"
  by (simp add: str_def)

lemma derive_repo_form:
  assumes "prefix (str ''form://'') u"
  shows "derive_repo (p\<lparr>source_url := Some u\<rparr>) =
           (let seg = first_segment (drop (length (str ''form://'')) u)
            in if seg = [] then str ''general'' else seg)"
proof -
  from assms obtain rest where u: "u = str ''form://'' @ rest"
    by (auto simp: prefix_def)
  have ne: "u \<noteq> []" using u str_form_nonempty by simp
  have "replace_js u (str ''form://'') [] = rest"
    using replace_js_prefix [of "str ''form://''" rest "[]"] u by simp
  then show ?thesis
    using assms ne u
    by (simp add: derive_repo_def startsWith_def or_str_def str_slash first_elem_split
        first_segment_def Let_def)
qed

section \<open>Claims about repo derivation\<close>

text \<open>
  Claim C3. For every point payload, with any combination of present, absent and empty
  \<open>source_url\<close> and \<open>repo\<close> fields, the repo derivation of the catalog aggregator returns
  one string, by strict precedence: a \<open>source_url\<close> starting with \<open>form://\<close> yields the
  first path segment after the marker, or \<open>general\<close> when that segment is empty; else a
  \<open>source_url\<close> starting with \<open>gdrive://\<close> yields \<open>google-drive\<close>; else a truthy \<open>repo\<close>
  field yields that value; else the result is \<open>ungrouped\<close>.
\<close>

theorem derive_repo_total_precedence: "derive_repo p = repo_spec p"
proof (cases "source_url p")
  case None
  then show ?thesis
    by (simp add: derive_repo_def repo_spec_def or_str_def startsWith_def
        str_form_nonempty str_gdrive_nonempty split: option.splits)
next
  case (Some u)
  show ?thesis
  proof (cases "prefix (str ''form://'') u")
    case True
    have "p = p\<lparr>source_url := Some u\<rparr>" using Some by simp
    then have "derive_repo p = derive_repo (p\<lparr>source_url := Some u\<rparr>)" by simp
    with True Some show ?thesis
      by (simp add: derive_repo_form repo_spec_def)
  next
    case False
    with Some show ?thesis
      by (auto simp: derive_repo_def repo_spec_def or_str_def startsWith_def
          str_form_nonempty str_gdrive_nonempty split: option.splits)
  qed
qed

theorem derive_repo_total_precedence_witness:
  "derive_repo (empty_payload\<lparr>source_url := Some (str ''form://acme/Policy A'')\<rparr>) = str ''acme''
   \<and> derive_repo (empty_payload\<lparr>source_url := Some (str ''form:///x''),
                                 repo := Some (str ''hr'')\<rparr>) = str ''general''
   \<and> derive_repo (empty_payload\<lparr>source_url := Some (str ''gdrive://f/1''),
                                 repo := Some (str ''hr'')\<rparr>) = str ''google-drive''
   \<and> derive_repo (empty_payload\<lparr>source_url := Some [], repo := Some (str ''hr'')\<rparr>) = str ''hr''
   \<and> derive_repo (empty_payload\<lparr>repo := Some []\<rparr>) = str ''ungrouped''
   \<and> derive_repo empty_payload = str ''ungrouped''"
  unfolding derive_repo_total_precedence
  by (simp add: repo_spec_def empty_payload_def first_segment_def str_def)

lemma first_segment_before_slash:
  "0x2F \<notin> set r \<Longrightarrow> first_segment (r @ 0x2F # t) = r"
  by (simp add: first_segment_def takeWhile_append)

lemma general_no_slash: "0x2F \<notin> set (str ''general'')"
  by (simp add: str_def)

lemma general_nonempty: "str ''general'' \<noteq> []"
  by (simp add: str_def)

lemma derive_repo_of_form_url:
  assumes "0x2F \<notin> set r" and "r \<noteq> []"
  shows "derive_repo (p\<lparr>source_url := Some (str ''form://'' @ r @ str ''/'' @ t)\<rparr>) = r"
proof -
  have "prefix (str ''form://'') (str ''form://'' @ r @ str ''/'' @ t)" by simp
  from derive_repo_form [OF this, of p] assms show ?thesis
    by (simp add: str_slash first_segment_before_slash)
qed

text \<open>
  Claim C9. Round trip between ingestion and the catalog: for every \<open>POST /api/ingest\<close>
  request whose \<open>repo\<close> is a non-empty string without a slash, or is absent (then
  \<open>general\<close> is used), the repo derivation applied to the \<open>source_url\<close> that the handler
  builds, \<open>form://{repo}/{trimmed title}\<close>, returns exactly that repo.
\<close>

theorem ingest_repo_round_trip:
  assumes "ingest_payload_of e title_v type_v repo_v content_v = Inr pl"
    and "(\<exists>r. repo_v = JStr r \<and> r \<noteq> [] \<and> 0x2F \<notin> set r) \<or> repo_v = JUndefined"
  shows "derive_repo (p\<lparr>source_url := Some (ip_source_url pl)\<rparr>) =
           (case repo_v of JStr r \<Rightarrow> r | _ \<Rightarrow> str ''general'')"
proof -
  from assms(1) obtain t where
    url: "ip_source_url pl =
            str ''form://'' @ to_string (numberToString e) (js_or repo_v (JStr (str ''general'')))
            @ str ''/'' @ t"
    by (auto simp: ingest_payload_of_def split: sum.splits)
  from assms(2) show ?thesis
  proof
    assume "\<exists>r. repo_v = JStr r \<and> r \<noteq> [] \<and> 0x2F \<notin> set r"
    then obtain r where r: "repo_v = JStr r" "r \<noteq> []" "0x2F \<notin> set r" by blast
    then show ?thesis
      using url derive_repo_of_form_url [where r = r and p = p and t = t]
      by (simp add: js_or_def)
  next
    assume "repo_v = JUndefined"
    then show ?thesis
      using url derive_repo_of_form_url [OF general_no_slash general_nonempty,
          where p = p and t = t]
      by (simp add: js_or_def)
  qed
qed

theorem ingest_repo_round_trip_witness:
  "(\<exists>pl. ingest_payload_of example_env (JStr (str '' Policy A '')) JUndefined
            (JStr (str ''acme'')) (JStr (str ''Notice is 30 days.'')) = Inr pl
        \<and> ip_source_url pl = str ''form://acme/Policy A''
        \<and> derive_repo (empty_payload\<lparr>source_url := Some (ip_source_url pl)\<rparr>) = str ''acme'')
   \<and> (\<exists>pl. ingest_payload_of example_env (JStr (str '' Policy A '')) JUndefined
            JUndefined (JStr (str ''Notice is 30 days.'')) = Inr pl
        \<and> ip_source_url pl = str ''form://general/Policy A''
        \<and> derive_repo (empty_payload\<lparr>source_url := Some (ip_source_url pl)\<rparr>) = str ''general'')"
proof -
  obtain pl where pl:
    "ingest_payload_of example_env (JStr (str '' Policy A '')) JUndefined
       (JStr (str ''acme'')) (JStr (str ''Notice is 30 days.'')) = Inr pl"
    and url: "ip_source_url pl = str ''form://acme/Policy A''"
    by (simp add: ingest_payload_of_def js_or_def trim_def is_ws_def str_def)
  have h: "(\<exists>r. JStr (str ''acme'') = JStr r \<and> r \<noteq> [] \<and> 0x2F \<notin> set r)
             \<or> JStr (str ''acme'') = JUndefined"
    by (simp add: str_def)
  obtain pl' where pl':
    "ingest_payload_of example_env (JStr (str '' Policy A '')) JUndefined
       JUndefined (JStr (str ''Notice is 30 days.'')) = Inr pl'"
    and url': "ip_source_url pl' = str ''form://general/Policy A''"
    by (simp add: ingest_payload_of_def js_or_def trim_def is_ws_def str_def)
  have h': "(\<exists>r. JUndefined = JStr r \<and> r \<noteq> [] \<and> 0x2F \<notin> set r) \<or> JUndefined = JUndefined"
    by simp
  show ?thesis
    using ingest_repo_round_trip [OF pl h, of empty_payload]
      ingest_repo_round_trip [OF pl' h', of empty_payload] pl pl' url url'
    by simp
qed

section \<open>Claims about POST /api/ask\<close>

text \<open>
  Claim C10. The validation of \<open>POST /api/ask\<close> is total only when \<open>question\<close> is absent,
  falsy or a string: on every request whose \<open>question\<close> is truthy and not a string the
  handler throws at \<open>question.trim()\<close>, outside every \<open>try\<close>, and so answers neither 400
  nor 502; the answer 400 is given exactly to a falsy question and to a string whose
  trimmed length is below 5.
\<close>

theorem ask_validation:
  "(truthy question_v \<and> (\<forall>s. question_v \<noteq> JStr s)
      \<longrightarrow> ask PG_URL e question_v state = (Uncaught TypeError, state))
   \<and> ((fst (ask PG_URL e question_v state) = Response 400 (ErrorText ''Question too short''))
        = (\<not> truthy question_v \<or> (\<exists>s. question_v = JStr s \<and> length (trim s) < 5)))"
  by (cases question_v) (auto simp: ask_def split: sum.splits prod.splits progress.splits)

theorem ask_validation_witness:
  "truthy (JNum 12345)
   \<and> ask example_url example_env (JNum 12345) (connected, three_fresh_rows)
       = (Uncaught TypeError, connected, three_fresh_rows)
   \<and> length (trim (str '' hi ''))  < 5
   \<and> fst (ask example_url example_env (JStr (str '' hi '')) (connected, three_fresh_rows))
       = Response 400 (ErrorText ''Question too short'')
   \<and> fst (ask example_url example_env JUndefined (connected, three_fresh_rows))
       = Response 400 (ErrorText ''Question too short'')"
proof -
  have num: "truthy (JNum 12345) \<and> (\<forall>s. JNum 12345 \<noteq> JStr s)" by simp
  have short: "length (trim (str '' hi '')) < 5"
    by (simp add: trim_def is_ws_def str_def)
  have absent: "\<not> truthy JUndefined" by simp
  show ?thesis
    using ask_validation [of "JNum 12345" example_url example_env "(connected, three_fresh_rows)"]
      ask_validation [of "JStr (str '' hi '')" example_url example_env
        "(connected, three_fresh_rows)"]
      ask_validation [of JUndefined example_url example_env "(connected, three_fresh_rows)"]
      num short absent
    by simp
qed

lemma pg_query_connected:
  "pg_query ok clock (Client True) st stmt
     = (Some (fst (run_statement ok clock st stmt)), snd (run_statement ok clock st stmt))"
  by (simp add: pg_query_def split: prod.splits)

lemma getDb_handle:
  assumes "db s \<noteq> Some (Client False)" and "getDb PG_URL e st s = (Inr (Some pg), s')"
  shows "pg = Client True"
proof (cases "db s")
  case None
  with assms(2) show ?thesis
    by (auto simp: getDb_def Let_def split: if_splits sum.splits)
next
  case (Some c)
  with assms show ?thesis by (cases c) (auto simp: getDb_def)
qed

lemma log_query_continues:
  assumes "db s \<noteq> Some (Client False)"
  shows "fst (log_query PG_URL e q r (s, st)) = Continues"
proof (cases "getDb PG_URL e st s")
  case (Pair res s')
  show ?thesis
  proof (cases res)
    case (Inl err)
    with Pair show ?thesis by (simp add: log_query_def)
  next
    case (Inr pgo)
    show ?thesis
    proof (cases pgo)
      case None
      with Pair Inr show ?thesis by (simp add: log_query_def)
    next
      case (Some pg)
      with Pair Inr assms have "pg = Client True" using getDb_handle by blast
      with Pair Inr Some show ?thesis
        by (simp add: log_query_def pg_query_connected split: sum.splits)
    qed
  qed
qed

lemma ask_answers_with_usable_handle:
  assumes "question_v = JStr s" and "5 \<le> length (trim s)"
    and "query_upstream e \<lparr>qp_question = trim s, qp_channel = str ''qa-form'',
                           qp_user = str ''form-user''\<rparr> = Inr r"
    and "db srv \<noteq> Some (Client False)"
  shows "fst (ask PG_URL e question_v (srv, st)) = Response 200 (Json r)"
proof -
  have ne: "s \<noteq> []" using assms(2) by (auto simp: trim_def)
  obtain state' where "log_query PG_URL e (trim s) r (srv, st) = (Continues, state')"
    using log_query_continues [OF assms(4), of PG_URL e "trim s" r st]
    by (cases "log_query PG_URL e (trim s) r (srv, st)") auto
  with assms(1,2,3) ne show ?thesis by (simp add: ask_def)
qed

text \<open>
  Claim C8 says that every \<open>POST /api/ask\<close> request whose upstream call succeeds is
  answered 200 with the upstream result, whatever becomes of the \<open>INSERT\<close>. When the
  connection failed at startup, \<open>db\<close> holds the client that never connected. The upstream
  call of the request below succeeds; \<open>getDb\<close> then hands out that client, the \<open>INSERT\<close> on
  it never settles, nothing is thrown for the \<open>catch\<close>, and \<open>res.json(result)\<close> is never
  reached: the request gets no response at all.
\<close>

theorem ask_gets_no_response_on_failed_handle:
  "startup example_url (example_env\<lparr>connect_ok := False\<rparr>) three_fresh_rows
     = \<lparr>db = Some (Client False)\<rparr>
   \<and> 5 \<le> length (trim (str ''What is the notice period for termination?''))
   \<and> query_upstream example_env
        \<lparr>qp_question = trim (str ''What is the notice period for termination?''),
          qp_channel = str ''qa-form'', qp_user = str ''form-user''\<rparr> = Inr example_answer
   \<and> ask example_url example_env (JStr (str ''What is the notice period for termination?''))
        (\<lparr>db = Some (Client False)\<rparr>, three_fresh_rows)
     = (NoResponse, \<lparr>db = Some (Client False)\<rparr>, three_fresh_rows)"
  by code_simp

lemma getDb_fst:
  "fst (getDb PG_URL e st s) = Inr (Some pg) \<Longrightarrow> \<exists>s'. getDb PG_URL e st s = (Inr (Some pg), s')"
  by (cases "getDb PG_URL e st s") auto

text \<open>
  Claim C7. For every \<open>POST /api/ask\<close> request whose trimmed question has at least 5
  characters, if the upstream call succeeds and the \<open>INSERT\<close> succeeds (the handle is
  acquired and queryable, the parameters can be read off the result, the server runs the
  statement), the request creates exactly one new \<open>query_log\<close> row, and its \<open>question\<close>
  is the trimmed question.
\<close>

theorem ask_logs_one_row:
  assumes "question_v = JStr s" and "5 \<le> length (trim s)"
    and "query_upstream e \<lparr>qp_question = trim s, qp_channel = str ''qa-form'',
                           qp_user = str ''form-user''\<rparr> = Inr r"
    and "r \<noteq> JUndefined" and "r \<noteq> JNull"
    and "fst (getDb PG_URL e st srv) = Inr (Some pg)" and "queryable pg" and "query_ok e"
  shows "\<exists>new. rows (snd (snd (ask PG_URL e question_v (srv, st)))) = rows st @ [new]
            \<and> question new = trim s \<and> stale new = False \<and> feedback new = JNull"
proof -
  have ne: "s \<noteq> []" using assms(2) by (auto simp: trim_def)
  from assms(6) obtain srv' where g: "getDb PG_URL e st srv = (Inr (Some pg), srv')"
    using getDb_fst by blast
  from assms(4,5) obtain ps where ps: "insert_params_of e (trim s) r = Inr ps"
    and q: "ins_question ps = trim s"
    by (cases r) (auto simp: insert_params_of_def Let_def)
  have pq: "pg_query (query_ok e) (db_clock e) pg st (InsertInto ps)
              = (Some (Inr Done),
                 st\<lparr>rows := rows st @ [new_row (seq st + 1) (db_clock e) ps],
                    seq := seq st + 1\<rparr>)"
    using assms(7,8) by (simp add: pg_query_def run_statement_def)
  have "snd (snd (ask PG_URL e question_v (srv, st)))
          = st\<lparr>rows := rows st @ [new_row (seq st + 1) (db_clock e) ps], seq := seq st + 1\<rparr>"
    using assms(1,2,3) ne g ps pq by (simp add: ask_def log_query_def)
  then show ?thesis using q by (simp add: new_row_def)
qed

theorem ask_logs_one_row_witness:
  "\<exists>new. rows (snd (snd (ask example_url example_env
                            (JStr (str '' What is the notice period for termination?''))
                            (unconnected, three_fresh_rows))))
            = rows three_fresh_rows @ [new]
        \<and> question new = str ''What is the notice period for termination?''
        \<and> stale new = False \<and> feedback new = JNull"
proof -
  have len: "5 \<le> length (trim (str '' What is the notice period for termination?''))"
    by (simp add: trim_def is_ws_def str_def)
  have tr: "trim (str '' What is the notice period for termination?'')
              = str ''What is the notice period for termination?''"
    by (simp add: trim_def is_ws_def str_def)
  have up: "query_upstream example_env
              \<lparr>qp_question = trim (str '' What is the notice period for termination?''),
                qp_channel = str ''qa-form'', qp_user = str ''form-user''\<rparr> = Inr example_answer"
    by (simp add: example_env_def)
  have r1: "example_answer \<noteq> JUndefined" and r2: "example_answer \<noteq> JNull"
    by (simp_all add: example_answer_def)
  have g: "fst (getDb example_url example_env three_fresh_rows unconnected)
             = Inr (Some (Client True))"
    by (simp add: getDb_def unconnected_def example_url_def example_env_def run_statement_def
        str_def)
  have qa: "queryable (Client True)" by simp
  have qo: "query_ok example_env" by (simp add: example_env_def)
  show ?thesis
    using ask_logs_one_row [OF refl len up r1 r2 g qa qo] tr by simp
qed

section \<open>Claims about the database handle\<close>

lemma startup_failure:
  assumes "PG_URL \<noteq> []" and "\<not> connect_ok e"
  shows "startup PG_URL e st = \<lparr>db = Some (Client False)\<rparr>"
  using assms by (simp add: startup_def getDb_def)




section \<open>Claims about the query log\<close>

lemma stale_kept_refl: "stale_kept st st"
  by (simp add: stale_kept_def)

lemma stale_kept_trans:
  assumes "stale_kept st1 st2" and "stale_kept st2 st3"
  shows "stale_kept st1 st3"
proof -
  have len: "length (rows st1) \<le> length (rows st2)" "length (rows st2) \<le> length (rows st3)"
    using assms by (simp_all add: stale_kept_def)
  have "row_id (rows st3 ! i) = row_id (rows st1 ! i) \<and>
        (stale (rows st1 ! i) \<longrightarrow>
           stale (rows st3 ! i) \<and> stale_reason (rows st3 ! i) = stale_reason (rows st1 ! i)) \<and>
        (stale_reason (rows st1 ! i) \<noteq> None \<longrightarrow> stale_reason (rows st3 ! i) \<noteq> None)"
    if i: "i < length (rows st1)" for i
  proof -
    from i len have i2: "i < length (rows st2)" by simp
    from assms(1) i have a:
      "row_id (rows st2 ! i) = row_id (rows st1 ! i) \<and>
       (stale (rows st1 ! i) \<longrightarrow>
          stale (rows st2 ! i) \<and> stale_reason (rows st2 ! i) = stale_reason (rows st1 ! i)) \<and>
       (stale_reason (rows st1 ! i) \<noteq> None \<longrightarrow> stale_reason (rows st2 ! i) \<noteq> None)"
      by (simp add: stale_kept_def)
    from assms(2) i2 have b:
      "row_id (rows st3 ! i) = row_id (rows st2 ! i) \<and>
       (stale (rows st2 ! i) \<longrightarrow>
          stale (rows st3 ! i) \<and> stale_reason (rows st3 ! i) = stale_reason (rows st2 ! i)) \<and>
       (stale_reason (rows st2 ! i) \<noteq> None \<longrightarrow> stale_reason (rows st3 ! i) \<noteq> None)"
      by (simp add: stale_kept_def)
    from a b show ?thesis by auto
  qed
  with len show ?thesis by (simp add: stale_kept_def)
qed

lemma stale_kept_insert: "stale_kept st (snd (pg_query ok clock c st (InsertInto ps)))"
  by (simp add: stale_kept_def pg_query_def run_statement_def nth_append)

lemma stale_kept_mark:
  "stale_kept st
     (snd (pg_query ok clock c st
             (Update [SetStale True, SetStaleReason reason] [StaleEq False] None None)))"
  by (simp add: stale_kept_def pg_query_def run_statement_def update_row_def)

lemma feedback_statement_unchanged:
  "pg_query ok clock c st (feedback_statement f q) = (res, st') \<Longrightarrow> st' = st"
  by (auto simp: pg_query_def run_statement_def feedback_statement_def split: if_splits)

lemma stale_kept_insert_eq:
  "pg_query ok clock c st (InsertInto ps) = (res, st') \<Longrightarrow> stale_kept st st'"
  using stale_kept_insert [of st ok clock c ps] by simp

lemma stale_kept_mark_eq:
  "pg_query ok clock c st
     (Update [SetStale True, SetStaleReason reason] [StaleEq False] None None) = (res, st')
   \<Longrightarrow> stale_kept st st'"
  using stale_kept_mark [of st ok clock c reason] by simp

lemma stale_kept_log_query: "stale_kept st (snd (snd (log_query PG_URL e q r (s, st))))"
  by (auto simp: log_query_def stale_kept_refl
      split: prod.splits sum.splits option.splits dest: stale_kept_insert_eq)

lemma stale_kept_mark_stale: "stale_kept st (snd (snd (mark_stale PG_URL e t (s, st))))"
  by (auto simp: mark_stale_def stale_kept_refl
      split: prod.splits sum.splits option.splits dest: stale_kept_mark_eq)

lemma stale_kept_log_query_eq:
  "log_query PG_URL e q r (s, st) = (pr, s', st') \<Longrightarrow> stale_kept st st'"
  using stale_kept_log_query [of st PG_URL e q r s] by simp

lemma stale_kept_mark_stale_eq:
  "mark_stale PG_URL e t (s, st) = (pr, s', st') \<Longrightarrow> stale_kept st st'"
  using stale_kept_mark_stale [of st PG_URL e t s] by simp

lemma stale_kept_ask: "stale_kept st (snd (snd (ask PG_URL e q (s, st))))"
  by (auto simp: ask_def stale_kept_refl
      split: sum.splits prod.splits progress.splits dest: stale_kept_log_query_eq)

lemma stale_kept_ingest: "stale_kept st (snd (snd (ingest PG_URL e t ty r c (s, st))))"
  by (auto simp: ingest_def stale_kept_refl
      split: sum.splits prod.splits progress.splits dest: stale_kept_mark_stale_eq)

lemma post_feedback_store: "snd (snd (post_feedback PG_URL e q f (s, st))) = st"
  by (auto simp: post_feedback_def split: prod.splits sum.splits option.splits
      dest: feedback_statement_unchanged)

lemma memory_store: "snd (snd (memory PG_URL e (s, st))) = st"
  by (auto simp: memory_def pg_query_def run_statement_def
      split: prod.splits sum.splits option.splits if_splits)

lemma stale_kept_handle: "stale_kept st (snd (snd (handle PG_URL e req (s, st))))"
  by (cases req)
    (simp_all add: stale_kept_ask stale_kept_ingest post_feedback_store memory_store
      stale_kept_refl)

lemma stale_kept_run: "stale_kept st (snd (run PG_URL steps (s, st)))"
proof (induction steps arbitrary: s st)
  case Nil
  show ?case by (simp add: stale_kept_refl)
next
  case (Cons step steps)
  obtain e req where step: "step = (e, req)" by (cases step)
  obtain out s1 st1 where h: "handle PG_URL e req (s, st) = (out, s1, st1)"
    by (cases "handle PG_URL e req (s, st)")
  have "stale_kept st st1" using stale_kept_handle [of st PG_URL e req s] h by simp
  moreover have "stale_kept st1 (snd (run PG_URL steps (s1, st1)))" by (rule Cons.IH)
  ultimately show ?case using step h stale_kept_trans by simp
qed

lemma mark_rows:
  assumes "queryable pg" and "ok"
  shows "pg_query ok clock pg st
           (Update [SetStale True, SetStaleReason reason] [StaleEq False] None None)
         = (Some (Inr Done),
            st\<lparr>rows := map (\<lambda>r. if stale r then r
                                 else r\<lparr>stale := True, stale_reason := Some reason\<rparr>)
                           (rows st)\<rparr>)"
proof -
  have "map (update_row [SetStale True, SetStaleReason reason] [StaleEq False]) (rows st)
          = map (\<lambda>r. if stale r then r else r\<lparr>stale := True, stale_reason := Some reason\<rparr>)
              (rows st)"
    by (auto simp: update_row_def)
  with assms show ?thesis by (simp add: pg_query_def run_statement_def)
qed

lemma reason_contains: "sublist t (stale_reason_of e t)"
  unfolding stale_reason_of_def by (metis sublist_appendI)

lemma ingest_200:
  assumes "fst (ingest PG_URL e (JStr t) type_v repo_v content_v (s, st)) = Response 200 b"
  shows "snd (ingest PG_URL e (JStr t) type_v repo_v content_v (s, st))
           = snd (mark_stale PG_URL e (trim t) (s, st))"
  using assms
  by (auto simp: ingest_def ingest_payload_of_def
      split: sum.splits if_splits prod.splits progress.splits)

text \<open>
  Claim C1 as stated: after every \<open>POST /api/ingest\<close> whose upstream call succeeds,
  every row that was fresh is stale before the 200 is sent. The bulk update runs inside
  a \<open>try\<close> whose \<open>catch\<close> only logs: when the server fails on the \<open>UPDATE\<close>, the
  handler still answers 200 with the upstream result, and the three fresh rows are as
  fresh as before.
\<close>

theorem ingest_db_failure_leaves_rows_fresh:
  "fst (ingest example_url (example_env\<lparr>query_ok := False\<rparr>) (JStr (str ''Policy B''))
          JUndefined JUndefined (JStr (str ''Thirty days.'')) (connected, three_fresh_rows))
     = Response 200 (Json (JObj [(str ''ok'', JBool True)]))
   \<and> snd (snd (ingest example_url (example_env\<lparr>query_ok := False\<rparr>) (JStr (str ''Policy B''))
                 JUndefined JUndefined (JStr (str ''Thirty days.''))
                 (connected, three_fresh_rows)))
     = three_fresh_rows
   \<and> list_all (\<lambda>r. \<not> stale r) (rows three_fresh_rows)"
  by code_simp

text \<open>
  Claim C1, amended. For every \<open>POST /api/ingest\<close> request that is answered 200 (the
  upstream ingestion call succeeded), if the database handle is acquired with its
  connection established and the server runs the bulk \<open>UPDATE\<close>, then before the response
  is sent every \<open>query_log\<close> row that was fresh is stale, with a \<open>stale_reason\<close> that
  contains the trimmed title of the ingested document; and no run of requests of any kind
  ever turns a stale row fresh again or clears a \<open>stale_reason\<close>.
\<close>

theorem ingest_marks_fresh_rows_stale:
  assumes "fst (ingest PG_URL e (JStr t) type_v repo_v content_v (s, st)) = Response 200 b"
    and "fst (getDb PG_URL e st s) = Inr (Some pg)" and "queryable pg" and "query_ok e"
  shows "(let st' = snd (snd (ingest PG_URL e (JStr t) type_v repo_v content_v (s, st)))
          in length (rows st') = length (rows st) \<and>
             (\<forall>i < length (rows st).
                \<not> stale (rows st ! i) \<longrightarrow>
                  stale (rows st' ! i) \<and>
                  (\<exists>reason. stale_reason (rows st' ! i) = Some reason
                      \<and> sublist (trim t) reason)))
         \<and> (\<forall>url steps s0 st0. stale_kept st0 (snd (run url steps (s0, st0))))"
proof -
  let ?st' = "snd (snd (ingest PG_URL e (JStr t) type_v repo_v content_v (s, st)))"
  from assms(2) obtain s' where g: "getDb PG_URL e st s = (Inr (Some pg), s')"
    using getDb_fst by blast
  have "?st' = snd (snd (mark_stale PG_URL e (trim t) (s, st)))"
    using ingest_200 [OF assms(1)] by simp
  then have "rows ?st' =
               map (\<lambda>r. if stale r then r
                         else r\<lparr>stale := True,
                                stale_reason := Some (stale_reason_of e (trim t))\<rparr>) (rows st)"
    using g mark_rows [OF assms(3,4)] by (simp add: mark_stale_def)
  then have "length (rows ?st') = length (rows st) \<and>
             (\<forall>i < length (rows st).
                \<not> stale (rows st ! i) \<longrightarrow>
                  stale (rows ?st' ! i) \<and>
                  (\<exists>reason. stale_reason (rows ?st' ! i) = Some reason
                      \<and> sublist (trim t) reason))"
    using reason_contains by simp
  then show ?thesis using stale_kept_run by (simp add: Let_def)
qed

theorem ingest_marks_fresh_rows_stale_witness:
  "list_all (\<lambda>r. \<not> stale r) (rows three_fresh_rows)
   \<and> list_all (\<lambda>r. stale r \<and> (\<exists>reason. stale_reason r = Some reason
                                   \<and> sublist (str ''Policy B'') reason))
        (rows (snd (snd (ingest example_url example_env (JStr (str '' Policy B ''))
                           JUndefined JUndefined (JStr (str ''Thirty days.''))
                           (connected, three_fresh_rows)))))
   \<and> length (rows (snd (snd (ingest example_url example_env (JStr (str '' Policy B ''))
                           JUndefined JUndefined (JStr (str ''Thirty days.''))
                           (connected, three_fresh_rows))))) = 3"
proof -
  let ?st' = "snd (snd (ingest example_url example_env (JStr (str '' Policy B ''))
                           JUndefined JUndefined (JStr (str ''Thirty days.''))
                           (connected, three_fresh_rows)))"
  have h1: "fst (ingest example_url example_env (JStr (str '' Policy B ''))
                   JUndefined JUndefined (JStr (str ''Thirty days.''))
                   (connected, three_fresh_rows))
              = Response 200 (Json (JObj [(str ''ok'', JBool True)]))"
    by code_simp
  have h2: "fst (getDb example_url example_env three_fresh_rows connected)
              = Inr (Some (Client True))"
    by (simp add: getDb_def connected_def)
  have h3: "queryable (Client True)" by simp
  have h4: "query_ok example_env" by (simp add: example_env_def)
  have tr: "trim (str '' Policy B '') = str ''Policy B''"
    by (simp add: trim_def is_ws_def str_def)
  have fresh: "list_all (\<lambda>r. \<not> stale r) (rows three_fresh_rows)"
    by (simp add: three_fresh_rows_def example_row_def new_row_def)
  have len: "length (rows three_fresh_rows) = 3"
    by (simp add: three_fresh_rows_def)
  from ingest_marks_fresh_rows_stale [OF h1 h2 h3 h4]
  have main: "length (rows ?st') = 3 \<and>
        (\<forall>i < 3. \<not> stale (rows three_fresh_rows ! i) \<longrightarrow>
            stale (rows ?st' ! i) \<and>
            (\<exists>reason. stale_reason (rows ?st' ! i) = Some reason
                \<and> sublist (str ''Policy B'') reason))"
    using tr len by (simp add: Let_def)
  have "\<not> stale (rows three_fresh_rows ! i)" if "i < 3" for i
    using that fresh len by (simp add: list_all_length)
  with main have "\<forall>i < length (rows ?st'). stale (rows ?st' ! i) \<and>
            (\<exists>reason. stale_reason (rows ?st' ! i) = Some reason
                \<and> sublist (str ''Policy B'') reason)"
    by simp
  then have "list_all (\<lambda>r. stale r \<and> (\<exists>reason. stale_reason r = Some reason
                                   \<and> sublist (str ''Policy B'') reason)) (rows ?st')"
    by (simp add: list_all_length)
  with fresh main show ?thesis by simp
qed

lemma post_feedback_rejected:
  assumes "db s = Some (Client True)" and "truthy question_v" and "query_ok e"
  shows "post_feedback PG_URL e question_v feedback_v (s, st)
           = (Response 500 (ErrorMessage SqlSyntaxError), s, st)"
  using assms
  by (simp add: post_feedback_def getDb_def pg_query_def run_statement_def
      feedback_statement_def)

text \<open>
  Claim C2 says that \<open>POST /api/feedback\<close> with a question string, on a connected store,
  sets \<open>feedback\<close> on the most recent row with that question and no feedback yet and
  answers \<open>{ok: true}\<close>. The statement the handler sends is an \<open>UPDATE\<close> with \<open>ORDER BY\<close>
  and \<open>LIMIT\<close>, which PostgreSQL does not parse. On a connected, healthy store holding a
  feedback-less row with the very question, the handler answers 500 and no row changes.
\<close>

theorem feedback_update_rejected:
  "post_feedback example_url example_env (JStr (str ''Who approves leave?''))
       (JStr (str ''up'')) (connected, three_fresh_rows)
     = (Response 500 (ErrorMessage SqlSyntaxError), connected, three_fresh_rows)
   \<and> question (rows three_fresh_rows ! 1) = str ''Who approves leave?''
   \<and> feedback (rows three_fresh_rows ! 1) = JNull"
  by code_simp

section \<open>Claims about the catalog scan\<close>

lemma scan_endless: "snd (scan endless_store) = Inr (replicate 20 one_point, Ceiling)"
  by code_simp

lemma scan_twenty: "snd (scan twenty_page_store) = Inr (replicate 20 one_point, Break)"
  by code_simp

text \<open>
  Claim C5 as stated ends: when the page ceiling is hit, the caller can detect the
  incomplete scan by a returned flag or signal. The response has no such field. A store
  that still names a next page after twenty pages (the scan leaves by the ceiling) and a
  store of exactly twenty pages (the scan leaves by its \<open>break\<close>) get the same response.
\<close>

theorem ceiling_not_signalled:
  "snd (scan endless_store) = Inr (replicate 20 one_point, Ceiling)
   \<and> snd (scan twenty_page_store) = Inr (replicate 20 one_point, Break)
   \<and> get_documents endless_store = get_documents twenty_page_store"
  by (simp add: get_documents_def scan_endless scan_twenty)

lemma scroll_pages_trace:
  "length (fst (scroll_pages up page off acc)) \<le> maxPages - page \<and>
   (\<forall>rq \<in> set (fst (scroll_pages up page off acc)).
        limit rq = 100 \<and> with_payload rq \<and> \<not> with_vector rq) \<and>
   (page < maxPages \<longrightarrow> fst (scroll_pages up page off acc) \<noteq> []
        \<and> hd (fst (scroll_pages up page off acc)) = scroll_payload off) \<and>
   (\<forall>k. Suc k < length (fst (scroll_pages up page off acc)) \<longrightarrow>
        (\<exists>r. up (page + k) (fst (scroll_pages up page off acc) ! k) = Inr (Some r)
            \<and> page_points r \<noteq> [] \<and> truthy (page_next r)
            \<and> offset (fst (scroll_pages up page off acc) ! Suc k) = Some (page_next r)))"
proof (induction up page off acc rule: scroll_pages.induct)
  case (1 up page off allPoints)
  show ?case
  proof (cases "page < maxPages")
    case False
    then show ?thesis by (subst scroll_pages.simps) (simp add: scroll_pages.simps)
  next
    case True
    note lt = this
    let ?req = "scroll_payload off"
    show ?thesis
    proof (cases "up page ?req")
      case (Inl e)
      with lt have "fst (scroll_pages up page off allPoints) = [?req]"
        by (subst scroll_pages.simps) simp
      with lt show ?thesis by (simp add: scroll_payload_def)
    next
      case (Inr ro)
      show ?thesis
      proof (cases ro)
        case None
        with Inr lt have "fst (scroll_pages up page off allPoints) = [?req]"
          by (subst scroll_pages.simps) simp
        with lt show ?thesis by (simp add: scroll_payload_def)
      next
        case (Some r)
        show ?thesis
        proof (cases "\<not> truthy (page_next r) \<or> length (page_points r) = 0")
          case True
          with Some Inr lt have "fst (scroll_pages up page off allPoints) = [?req]"
            by (subst scroll_pages.simps) (simp add: Let_def)
          with lt show ?thesis by (simp add: scroll_payload_def)
        next
          case False
          let ?rest = "fst (scroll_pages up (page + 1) (page_next r) (allPoints @ page_points r))"
          have eq: "fst (scroll_pages up page off allPoints) = ?req # ?rest"
            using False Some Inr lt
            by (subst scroll_pages.simps) (simp add: Let_def split: prod.splits)
          have IH: "length ?rest \<le> maxPages - (page + 1) \<and>
                (\<forall>rq \<in> set ?rest. limit rq = 100 \<and> with_payload rq \<and> \<not> with_vector rq) \<and>
                (page + 1 < maxPages \<longrightarrow> ?rest \<noteq> [] \<and> hd ?rest = scroll_payload (page_next r)) \<and>
                (\<forall>k. Suc k < length ?rest \<longrightarrow>
                   (\<exists>r'. up (page + 1 + k) (?rest ! k) = Inr (Some r')
                      \<and> page_points r' \<noteq> [] \<and> truthy (page_next r')
                      \<and> offset (?rest ! Suc k) = Some (page_next r')))"
            using "1.IH" [OF lt refl Inr Some refl refl refl] False by simp
          from IH have IHlen: "length ?rest \<le> maxPages - (page + 1)" by blast
          have len: "length (fst (scroll_pages up page off allPoints)) \<le> maxPages - page"
            using eq IHlen lt by simp
          have reqs: "\<forall>rq \<in> set (fst (scroll_pages up page off allPoints)).
                        limit rq = 100 \<and> with_payload rq \<and> \<not> with_vector rq"
            using eq IH by (simp add: scroll_payload_def)
          have hd: "fst (scroll_pages up page off allPoints) \<noteq> []
                 \<and> hd (fst (scroll_pages up page off allPoints)) = ?req"
            using eq by simp
          have step: "\<exists>r'. up (page + k) (fst (scroll_pages up page off allPoints) ! k) = Inr (Some r')
                      \<and> page_points r' \<noteq> [] \<and> truthy (page_next r')
                      \<and> offset (fst (scroll_pages up page off allPoints) ! Suc k) = Some (page_next r')"
            if k: "Suc k < length (fst (scroll_pages up page off allPoints))" for k
          proof (cases k)
            case 0
            from k eq 0 have ne: "?rest \<noteq> []" by auto
            then have "page + 1 < maxPages" using IH by (cases "page + 1 < maxPages") auto
            with IH have "hd ?rest = scroll_payload (page_next r)" by simp
            with ne have "?rest ! 0 = scroll_payload (page_next r)" by (simp add: hd_conv_nth)
            then show ?thesis using 0 eq Inr Some False by (simp add: scroll_payload_def)
          next
            case (Suc j)
            with k eq have "Suc j < length ?rest" by simp
            with IH obtain r' where "up (page + 1 + j) (?rest ! j) = Inr (Some r')"
              "page_points r' \<noteq> []" "truthy (page_next r')" "offset (?rest ! Suc j) = Some (page_next r')"
              by blast
            then show ?thesis using Suc eq by simp
          qed
          from len reqs hd step show ?thesis by blast
        qed
      qed
    qed
  qed
qed

lemma page_next_shapes:
  assumes "truthy c"
  shows "page_next \<lparr>points = ps, next_page_offset = c, result = None\<rparr> = c"
    and "page_next \<lparr>points = None, next_page_offset = JUndefined,
                     result = Some \<lparr>points = ps, next_page_offset = c\<rparr>\<rparr> = c"
  using assms by (simp_all add: page_next_def js_or_def)

lemma page_points_shapes:
  "page_points \<lparr>points = Some ps, next_page_offset = c, result = None\<rparr> = ps"
  "page_points \<lparr>points = None, next_page_offset = JUndefined,
                 result = Some \<lparr>points = Some ps, next_page_offset = c\<rparr>\<rparr> = ps"
  by (simp_all add: page_points_def or_arr_def)

text \<open>
  Claim C5, amended. For every \<open>GET /api/documents\<close> request, each scroll request asks
  for at most 100 points with payload included and vectors excluded; a further page is
  requested only when the page before returned a non-empty point set and a truthy
  next-page cursor (read bare or under \<open>result\<close>), which becomes the next \<open>offset\<close>; the
  scan sends at most 20 requests; and a scan that succeeds is answered with the catalog of
  the points it collected, the same whether it left by the page ceiling or by its
  \<open>break\<close>: the response carries no sign of an incomplete scan.
\<close>

theorem scan_paging:
  "length (fst (scan up)) \<le> 20
   \<and> (\<forall>rq \<in> set (fst (scan up)). limit rq = 100 \<and> with_payload rq \<and> \<not> with_vector rq)
   \<and> (\<forall>k. Suc k < length (fst (scan up)) \<longrightarrow>
         (\<exists>r. up k (fst (scan up) ! k) = Inr (Some r)
             \<and> page_points r \<noteq> [] \<and> truthy (page_next r)
             \<and> offset (fst (scan up) ! Suc k) = Some (page_next r)))
   \<and> (\<forall>c ps. truthy c \<longrightarrow>
         page_next \<lparr>points = Some ps, next_page_offset = c, result = None\<rparr> = c
         \<and> page_points \<lparr>points = Some ps, next_page_offset = c, result = None\<rparr> = ps
         \<and> page_next \<lparr>points = None, next_page_offset = JUndefined,
                       result = Some \<lparr>points = Some ps, next_page_offset = c\<rparr>\<rparr> = c
         \<and> page_points \<lparr>points = None, next_page_offset = JUndefined,
                         result = Some \<lparr>points = Some ps, next_page_offset = c\<rparr>\<rparr> = ps)
   \<and> (\<forall>pts ex. snd (scan up) = Inr (pts, ex) \<longrightarrow>
         get_documents up = Response 200 (CatalogBody (build_catalog pts)))"
proof -
  have a: "length (fst (scan up)) \<le> 20"
    using scroll_pages_trace [of up 0 JNull "[]"] by (simp add: scan_def maxPages_def)
  have b: "\<forall>rq \<in> set (fst (scan up)). limit rq = 100 \<and> with_payload rq \<and> \<not> with_vector rq"
    using scroll_pages_trace [of up 0 JNull "[]"] by (simp add: scan_def)
  have c: "\<forall>k. Suc k < length (fst (scan up)) \<longrightarrow>
         (\<exists>r. up k (fst (scan up) ! k) = Inr (Some r)
             \<and> page_points r \<noteq> [] \<and> truthy (page_next r)
             \<and> offset (fst (scan up) ! Suc k) = Some (page_next r))"
    using scroll_pages_trace [of up 0 JNull "[]"] by (simp add: scan_def)
  have d: "\<forall>pts ex. snd (scan up) = Inr (pts, ex) \<longrightarrow>
         get_documents up = Response 200 (CatalogBody (build_catalog pts))"
    by (simp add: get_documents_def)
  from a b c d show ?thesis
    by (simp add: page_next_shapes page_points_shapes)
qed

lemma trace_twenty: "length (fst (scan twenty_page_store)) = 20"
  by code_simp

theorem scan_paging_witness:
  "length (fst (scan twenty_page_store)) = 20
   \<and> limit (fst (scan twenty_page_store) ! 0) = 100
   \<and> with_payload (fst (scan twenty_page_store) ! 0)
   \<and> \<not> with_vector (fst (scan twenty_page_store) ! 0)
   \<and> (\<exists>r. twenty_page_store 18 (fst (scan twenty_page_store) ! 18) = Inr (Some r)
         \<and> page_points r \<noteq> [] \<and> truthy (page_next r)
         \<and> offset (fst (scan twenty_page_store) ! 19) = Some (page_next r))
   \<and> get_documents twenty_page_store
       = Response 200 (CatalogBody (build_catalog (replicate 20 one_point)))"
proof -
  note sp = scan_paging [of twenty_page_store]
  have mem: "fst (scan twenty_page_store) ! 0 \<in> set (fst (scan twenty_page_store))"
    using trace_twenty by (simp add: nth_mem del: set_conv_nth)
  have k: "Suc 18 < length (fst (scan twenty_page_store))"
    using trace_twenty by simp
  from sp mem have first:
    "limit (fst (scan twenty_page_store) ! 0) = 100
     \<and> with_payload (fst (scan twenty_page_store) ! 0)
     \<and> \<not> with_vector (fst (scan twenty_page_store) ! 0)"
    by blast
  from sp k have step:
    "\<exists>r. twenty_page_store 18 (fst (scan twenty_page_store) ! 18) = Inr (Some r)
         \<and> page_points r \<noteq> [] \<and> truthy (page_next r)
         \<and> offset (fst (scan twenty_page_store) ! Suc 18) = Some (page_next r)"
    by blast
  from sp scan_twenty have resp:
    "get_documents twenty_page_store
       = Response 200 (CatalogBody (build_catalog (replicate 20 one_point)))"
    by blast
  from trace_twenty first step resp show ?thesis by simp
qed

section \<open>Claims about the grouping of points\<close>

text \<open>
  What the grouping loop computes, for any list of points: one entry per distinct key
  string, seeded by the first point of that key, with the number of points of that key
  as \<open>chunks\<close>.
\<close>

lemma map_of_incr_chunks:
  "map_of (incr_chunks key m) k =
     (if k = key then map_option (\<lambda>d. d\<lparr>chunks := chunks d + 1\<rparr>) (map_of m key)
      else map_of m k)"
  by (induction m) auto

lemma keys_incr_chunks: "map fst (incr_chunks key m) = map fst m"
  by (induction m) auto

lemma add_point_unfold:
  "add_point m pt =
     incr_chunks (point_key pt)
       (if map_of m (point_key pt) = None then m @ [(point_key pt, seed_doc pt)] else m)"
  by (simp add: add_point_def point_key_def seed_doc_def Let_def)

lemma find_snoc:
  "find P (xs @ [x]) = (case find P xs of None \<Rightarrow> if P x then Some x else None | Some y \<Rightarrow> Some y)"
  by (induction xs) auto

lemma group_points_snoc: "group_points (pts @ [pt]) = add_point (group_points pts) pt"
  by (simp add: group_points_def)

lemma chunks_seed_doc: "chunks (seed_doc pt) = 0"
  by (simp add: seed_doc_def Let_def)

lemma find_None_filter: "find P xs = None \<Longrightarrow> filter P xs = []"
  by (simp add: find_None_iff filter_empty_conv)

lemma group_points_lookup:
  "map_of (group_points pts) k =
     (case find (\<lambda>pt. point_key pt = k) pts of
        None \<Rightarrow> None
      | Some pt \<Rightarrow> Some ((seed_doc pt)\<lparr>chunks := length (filter (\<lambda>pt. point_key pt = k) pts)\<rparr>))"
proof (induction pts rule: rev_induct)
  case Nil
  show ?case by (simp add: group_points_def)
next
  case (snoc pt pts)
  show ?case
  proof (cases "find (\<lambda>pt. point_key pt = k) pts")
    case None
    with snoc show ?thesis
      by (auto simp: group_points_snoc add_point_unfold map_of_incr_chunks find_snoc
          map_add_def chunks_seed_doc find_None_filter split: option.splits)
  next
    case (Some first)
    with snoc show ?thesis
      by (auto simp: group_points_snoc add_point_unfold map_of_incr_chunks find_snoc
          map_add_def split: option.splits)
  qed
qed

lemma group_points_distinct: "distinct (map fst (group_points pts))"
proof (induction pts rule: rev_induct)
  case Nil
  show ?case by (simp add: group_points_def)
next
  case (snoc pt pts)
  then show ?case
    by (auto simp: group_points_snoc add_point_unfold keys_incr_chunks map_of_eq_None_iff)
qed

lemma group_points_keys: "set (map fst (group_points pts)) = point_key ` set pts"
proof (induction pts rule: rev_induct)
  case Nil
  show ?case by (simp add: group_points_def)
next
  case (snoc pt pts)
  then show ?case
    by (auto simp: group_points_snoc add_point_unfold keys_incr_chunks map_of_eq_None_iff)
qed

lemma two_chunks_one_document:
  "documents (build_catalog [one_point, one_point])
     = [\<lparr>doc_title = str ''Policy A'', doc_repo = str ''acme'',
          doc_document_type = str ''unknown'', doc_jurisdictions = [], doc_topics = [],
          chunks = 2\<rparr>]"
  by code_simp

text \<open>
  Claim C4 says that the documents returned by one scan are in bijection with the
  distinct derived (repo, title) pairs, each with the number of points of its pair as
  \<open>chunks\<close>. The handler groups by the string \<^verbatim>\<open>`${repo}::${title}`\<close>, which does not
  determine the pair when the repo or the title contains \<open>::\<close>. The two points below have
  the different pairs (\<open>a::b\<close>, \<open>c\<close>) and (\<open>a\<close>, \<open>b::c\<close>); the catalog has one document for
  both, with \<open>chunks = 2\<close> although one point has its pair, and the second document is
  missing.
\<close>

theorem separator_collision_merges_documents:
  "get_documents colliding_store
     = Response 200
         (CatalogBody
            \<lparr>documents =
               [\<lparr>doc_title = str ''c'', doc_repo = str ''a::b'',
                  doc_document_type = str ''policy'', doc_jurisdictions = [],
                  doc_topics = [], chunks = 2\<rparr>],
             total_documents = 1, total_chunks = 2\<rparr>)
   \<and> derive_repo (payload_of point_ab_c) = str ''a::b''
   \<and> derive_title (payload_of point_ab_c) = str ''c''
   \<and> derive_repo (payload_of point_a_bc) = str ''a''
   \<and> derive_title (payload_of point_a_bc) = str ''b::c''
   \<and> length (filter (\<lambda>pt. derive_repo (payload_of pt) = str ''a::b''
                           \<and> derive_title (payload_of pt) = str ''c'')
               [point_ab_c, point_a_bc]) = 1"
  by code_simp

end
